theory Spec2Isabelle
  imports Main "HOL-Library.AList"
begin

section \<open>Exceptions\<close>

text \<open>
  The notebooks are Python 3 scripts. An exception that ends a run is recorded with the
  place it comes from: the body of a called function (a library or built-in function,
  by name), or an expression of the notebook evaluated by the interpreter itself.
\<close>

datatype exn = IndexError | ValueError | FileNotFoundError | SyntaxError | OtherError string

datatype origin = InCall string | RepoExpr string

type_synonym failure = "origin \<times> exn"

section \<open>The GloVe loading loop\<close>

text \<open>
  \<^verbatim>\<open>
  embeddings_index = dict()
  f = open('glove.6B.100d.txt')
  for line in f:
      values = line.split()
      word = values[0]
      coefs = asarray(values[1:], dtype='float32')
      embeddings_index[word] = coefs
  f.close()
  print('Loaded %s word vectors.' % len(embeddings_index))
  \<close>
  A line is a list of characters. \<open>str.split()\<close> without arguments cuts a line at
  runs of whitespace and drops empty pieces; \<open>isspace\<close> is Python's predicate on
  the code points below 256.
\<close>

definition isspace :: "char \<Rightarrow> bool" where
  "isspace c =
     (let n = (of_char c :: nat)
      in (9 \<le> n \<and> n \<le> 13) \<or> (28 \<le> n \<and> n \<le> 32) \<or> n = 133 \<or> n = 160)"

fun split_from :: "string \<Rightarrow> string \<Rightarrow> string list" where
  "split_from cur [] = (if cur = [] then [] else [cur])"
| "split_from cur (c # cs) =
     (if isspace c then (if cur = [] then split_from [] cs else cur # split_from [] cs)
      else split_from (cur @ [c]) cs)"

definition py_split :: "string \<Rightarrow> string list" where
  "py_split line = split_from [] line"

text \<open>\<open>values[0]\<close> on a Python list: the first element, IndexError on the empty list.\<close>

definition values_0 :: "string list \<Rightarrow> failure + string" where
  "values_0 vs = (case vs of [] \<Rightarrow> Inl (RepoExpr ''values[0]'', IndexError) | w # _ \<Rightarrow> Inr w)"

text \<open>
  \<open>asarray(tokens, dtype='float32')\<close>: every token is converted to a number, and a
  token that is not a number raises ValueError inside numpy. The conversion of one token
  is the parameter \<open>to_float\<close>.
\<close>

fun asarray :: "(string \<Rightarrow> 'a option) \<Rightarrow> string list \<Rightarrow> failure + 'a list" where
  "asarray to_float [] = Inr []"
| "asarray to_float (t # ts) =
     (case to_float t of
        None \<Rightarrow> Inl (InCall ''asarray'', ValueError)
      | Some x \<Rightarrow> (case asarray to_float ts of Inl e \<Rightarrow> Inl e | Inr xs \<Rightarrow> Inr (x # xs)))"

text \<open>
  The dictionary is an association list with distinct keys, in insertion order:
  \<open>d[k] = v\<close> replaces the value of a key that is present and appends a new key.
\<close>

type_synonym 'a embeddings = "(string \<times> 'a list) list"

fun load_loop :: "(string \<Rightarrow> 'a option) \<Rightarrow> string list \<Rightarrow> 'a embeddings \<Rightarrow> failure + 'a embeddings" where
  "load_loop to_float [] embeddings_index = Inr embeddings_index"
| "load_loop to_float (line # rest) embeddings_index =
     (let values = py_split line in
      case values_0 values of
        Inl e \<Rightarrow> Inl e
      | Inr word \<Rightarrow>
          (case asarray to_float (drop 1 values) of
             Inl e \<Rightarrow> Inl e
           | Inr coefs \<Rightarrow> load_loop to_float rest (AList.update word coefs embeddings_index)))"

definition load_embeddings :: "(string \<Rightarrow> 'a option) \<Rightarrow> string list \<Rightarrow> failure + 'a embeddings" where
  "load_embeddings to_float lines = load_loop to_float lines []"

text \<open>The number printed by \<open>print('Loaded %s word vectors.' % len(embeddings_index))\<close>.\<close>

definition loaded_count :: "'a embeddings \<Rightarrow> nat" where
  "loaded_count embeddings_index = length embeddings_index"

text \<open>
  The words of the claim about the loop: the first token of a line, the coefficient
  vector parsed from a line, both undefined (\<open>None\<close>) where the loop raises.
\<close>

definition first_token :: "string \<Rightarrow> string option" where
  "first_token line = (case py_split line of [] \<Rightarrow> None | w # _ \<Rightarrow> Some w)"

definition coefficient_vector :: "(string \<Rightarrow> 'a option) \<Rightarrow> string \<Rightarrow> 'a list option" where
  "coefficient_vector to_float line =
     (case asarray to_float (drop 1 (py_split line)) of Inl _ \<Rightarrow> None | Inr v \<Rightarrow> Some v)"


text \<open>A conversion of tokens used in the concrete runs: the decimal digits 0, 1, 2 and 5.\<close>

definition sample_float :: "string \<Rightarrow> int option" where
  "sample_float s =
     (if s = ''0'' then Some 0 else if s = ''1'' then Some 1
      else if s = ''2'' then Some 2 else if s = ''5'' then Some 5 else None)"

section \<open>The weight matrix of the pre-trained example\<close>

text \<open>
  \<^verbatim>\<open>
  vocab_size = len(t.word_index) + 1
  ...
  embedding_matrix = zeros((vocab_size, 100))
  for word, i in t.word_index.items():
      embedding_vector = embeddings_index.get(word)
      if embedding_vector is not None:
          embedding_matrix[i] = embedding_vector
  \<close>
  \<open>t.word_index\<close> is the dictionary of the Keras tokenizer, from words to Python
  integers: an association list in the order of \<open>items()\<close>. The matrix is the list
  of its rows.
\<close>

type_synonym word_index = "(string \<times> int) list"

type_synonym 'a matrix = "'a list list"

definition vocab_size :: "word_index \<Rightarrow> nat" where
  "vocab_size word_index = length word_index + 1"

definition embedding_dim :: nat where
  "embedding_dim = 100"

definition zeros :: "nat \<Rightarrow> nat \<Rightarrow> ('a::zero) matrix" where
  "zeros rows cols = replicate rows (replicate cols 0)"

text \<open>
  \<open>embedding_matrix[i] = embedding_vector\<close> is numpy's assignment to a row. The
  index is resolved first: a negative index counts from the end, and an index outside
  the rows raises IndexError. The vector is then copied into the row under numpy's
  broadcasting: a vector of the row's length is stored as it is, a vector of one
  component fills the row with that component, and any other length raises ValueError.
\<close>

definition broadcast_row :: "nat \<Rightarrow> 'a list \<Rightarrow> failure + 'a list" where
  "broadcast_row cols v =
     (if length v = cols then Inr v
      else if length v = 1 then Inr (replicate cols (hd v))
      else Inl (InCall ''ndarray.__setitem__'', ValueError))"

definition set_row :: "'a matrix \<Rightarrow> int \<Rightarrow> 'a list \<Rightarrow> failure + 'a matrix" where
  "set_row m i v =
     (let n = int (length m); j = (if i < 0 then i + n else i)
      in if 0 \<le> j \<and> j < n
         then (case broadcast_row (length (m ! nat j)) v of
                 Inl e \<Rightarrow> Inl e
               | Inr r \<Rightarrow> Inr (m[nat j := r]))
         else Inl (InCall ''ndarray.__setitem__'', IndexError))"

fun matrix_loop :: "'a embeddings \<Rightarrow> word_index \<Rightarrow> 'a matrix \<Rightarrow> failure + 'a matrix" where
  "matrix_loop embeddings_index [] embedding_matrix = Inr embedding_matrix"
| "matrix_loop embeddings_index ((word, i) # rest) embedding_matrix =
     (case map_of embeddings_index word of
        None \<Rightarrow> matrix_loop embeddings_index rest embedding_matrix
      | Some embedding_vector \<Rightarrow>
          (case set_row embedding_matrix i embedding_vector of
             Inl e \<Rightarrow> Inl e
           | Inr m \<Rightarrow> matrix_loop embeddings_index rest m))"

text \<open>The construction with the number of rows as the script computes it.\<close>

definition build_matrix :: "('a::zero) embeddings \<Rightarrow> word_index \<Rightarrow> failure + 'a matrix" where
  "build_matrix embeddings_index word_index =
     matrix_loop embeddings_index word_index (zeros (vocab_size word_index) embedding_dim)"


text \<open>
  The row that an assignment of a vector leaves in a matrix of \<open>embedding_dim\<close>
  columns, when the assignment succeeds.
\<close>

definition stored_row :: "'a list \<Rightarrow> 'a list" where
  "stored_row v = (if length v = embedding_dim then v else replicate embedding_dim (hd v))"

text \<open>The precondition of claim C5 on the tokenizer's dictionary.\<close>

definition indices_1_to_len :: "word_index \<Rightarrow> bool" where
  "indices_1_to_len word_index =
     (distinct (map fst word_index) \<and> distinct (map snd word_index) \<and>
      list_all (\<lambda>(w, i). 1 \<le> i \<and> i \<le> int (length word_index)) word_index)"

text \<open>
  The tokenizer's dictionary for the ten documents of the notebook, as the recorded
  output of the pre-trained example shows it (the encoded documents
  \<open>[[6, 2], [3, 1], [7, 4], [8, 1], [9], [10], [5, 4], [11, 3], [5, 1], [12, 13, 2, 14]]\<close>).
\<close>

definition docs_word_index :: word_index where
  "docs_word_index =
     [(''work'', 1), (''done'', 2), (''good'', 3), (''effort'', 4), (''poor'', 5),
      (''well'', 6), (''great'', 7), (''nice'', 8), (''excellent'', 9), (''weak'', 10),
      (''not'', 11), (''could'', 12), (''have'', 13), (''better'', 14)]"

text \<open>Every row of a matrix has \<open>embedding_dim\<close> columns.\<close>

definition rows_ok :: "'a matrix \<Rightarrow> bool" where
  "rows_ok m = (\<forall>r\<in>set m. length r = embedding_dim)"

section \<open>Running a script\<close>

text \<open>
  A script is run against the external text resources (files by path, remote files by
  URL), writes to standard output and calls into libraries. The run state holds the
  resources, the values printed so far and the trace of events. Library objects and
  results are values of the type \<open>val\<close> (\<open>VLit\<close> is a literal, formula or
  index expression by its source text, \<open>VOp\<close> a built-in operator applied to
  values, \<open>VKw\<close> a keyword argument); what a library call returns, or the
  exception it raises, is a parameter of every script (the record \<open>lib\<close>), so a
  property proved of a script holds whatever the libraries compute.
\<close>

datatype 'a val =
    VNone
  | VInt int
  | VStr string
  | VList "'a val list"
  | VTuple "'a val list"
  | VKw string "'a val"
  | VLit string
  | VOp string "'a val list"
  | VText "string list"
  | VMatrix "'a list list"

datatype event = Call string | Read string | Print

record 'a run_state =
  resources :: "string \<Rightarrow> string list option"
  out :: "'a val list"
  trace :: "event list"

text \<open>
  \<open>returns\<close> is the result of a call of the named library function on its
  arguments (a method takes its object first; a method that changes its object returns
  the changed object). \<open>evaluate\<close> is Keras' \<open>model.evaluate\<close> with one metric:
  a loss and a metric value. \<open>word_index_of\<close> reads the attribute
  \<open>word_index\<close> of a tokenizer, and \<open>float32\<close> is numpy's conversion of a
  token to a float32.
\<close>

record 'a lib =
  returns :: "string \<Rightarrow> 'a val list \<Rightarrow> exn + 'a val"
  evaluate :: "'a val list \<Rightarrow> exn + ('a val \<times> 'a val)"
  word_index_of :: "'a val \<Rightarrow> word_index"
  float32 :: "string \<Rightarrow> 'a option"

type_synonym ('a, 'r) prog = "'a run_state \<Rightarrow> (failure + 'r) \<times> 'a run_state"

definition ret :: "'r \<Rightarrow> ('a, 'r) prog" where
  "ret x s = (Inr x, s)"

text \<open>Sequencing: an exception of the first part ends the run, nothing catches it.\<close>

definition bnd :: "('a, 'r) prog \<Rightarrow> ('r \<Rightarrow> ('a, 'q) prog) \<Rightarrow> ('a, 'q) prog" where
  "bnd p q s = (case p s of (Inl e, s') \<Rightarrow> (Inl e, s') | (Inr x, s') \<Rightarrow> q x s')"

definition lift :: "failure + 'r \<Rightarrow> ('a, 'r) prog" where
  "lift r s = (r, s)"

definition emit :: "event \<Rightarrow> 'a run_state \<Rightarrow> 'a run_state" where
  "emit ev s = s\<lparr>trace := trace s @ [ev]\<rparr>"

definition call :: "'a lib \<Rightarrow> string \<Rightarrow> 'a val list \<Rightarrow> ('a, 'a val) prog" where
  "call L f args s =
     (case returns L f args of
        Inl e \<Rightarrow> (Inl (InCall f, e), emit (Call f) s)
      | Inr v \<Rightarrow> (Inr v, emit (Call f) s))"

definition call_evaluate :: "'a lib \<Rightarrow> 'a val list \<Rightarrow> ('a, 'a val \<times> 'a val) prog" where
  "call_evaluate L args s =
     (case evaluate L args of
        Inl e \<Rightarrow> (Inl (InCall ''Sequential.evaluate'', e), emit (Call ''Sequential.evaluate'') s)
      | Inr r \<Rightarrow> (Inr r, emit (Call ''Sequential.evaluate'') s))"

text \<open>\<open>print(v)\<close>, and the printing of a top-level value in an R chunk.\<close>

definition print_out :: "'a val \<Rightarrow> ('a, unit) prog" where
  "print_out v s = (Inr (), emit Print (s\<lparr>out := out s @ [v]\<rparr>))"

text \<open>\<open>open(path)\<close> for reading, with the lines that iterating the file yields.\<close>

definition open_read :: "string \<Rightarrow> ('a, string list) prog" where
  "open_read path s =
     (case resources s path of
        None \<Rightarrow> (Inl (InCall ''open'', FileNotFoundError), emit (Read path) s)
      | Some lines \<Rightarrow> (Inr lines, emit (Read path) s))"

text \<open>
  \<open>read_csv(url, names=names)\<close>: pandas fetches the resource and parses it; a
  resource that cannot be fetched is an exception raised inside pandas.
\<close>

definition read_csv :: "'a lib \<Rightarrow> string \<Rightarrow> 'a val \<Rightarrow> ('a, 'a val) prog" where
  "read_csv L url names s =
     (case resources s url of
        None \<Rightarrow> (Inl (InCall ''read_csv'', OtherError ''URLError''),
                 emit (Read url) (emit (Call ''read_csv'') s))
      | Some lines \<Rightarrow>
          (case returns L ''read_csv'' [VText lines, VKw ''names'' names] of
             Inl e \<Rightarrow> (Inl (InCall ''read_csv'', e), emit (Read url) (emit (Call ''read_csv'') s))
           | Inr v \<Rightarrow> (Inr v, emit (Read url) (emit (Call ''read_csv'') s))))"

text \<open>A list comprehension \<open>[f(d) for d in ds]\<close> whose body is a library call.\<close>

fun comprehension :: "('d \<Rightarrow> ('a, 'r) prog) \<Rightarrow> 'd list \<Rightarrow> ('a, 'r list) prog" where
  "comprehension f [] = ret []"
| "comprehension f (d # ds) =
     bnd (f d) (\<lambda>x. bnd (comprehension f ds) (\<lambda>xs. ret (x # xs)))"






section \<open>The scripts of the repository\<close>

subsection \<open>Pipelines notebook\<close>

text \<open>
  \<^verbatim>\<open>
  url = "https://raw.githubusercontent.com/jbrownlee/Datasets/master/pima-indians-diabetes.data.csv"
  names = ['preg', 'plas', 'pres', 'skin', 'test', 'mass', 'pedi', 'age', 'class']
  dataframe = read_csv(url, names=names)
  array = dataframe.values
  X = array[:,0:8]
  Y = array[:,8]
  estimators = []
  estimators.append(('standardize', StandardScaler()))
  estimators.append(('lda', LinearDiscriminantAnalysis()))
  model = Pipeline(estimators)
  seed = 7
  kfold = KFold(n_splits=10, random_state=seed)
  results = cross_val_score(model, X, Y, cv=kfold)
  print(results.mean())
  \<close>
\<close>

definition url :: string where
  "url = ''https://raw.githubusercontent.com/jbrownlee/Datasets/master/pima-indians-diabetes.data.csv''"

definition names :: "'a val" where
  "names = VList [VStr ''preg'', VStr ''plas'', VStr ''pres'', VStr ''skin'', VStr ''test'',
                  VStr ''mass'', VStr ''pedi'', VStr ''age'', VStr ''class'']"

definition pipeline_1 :: "'a lib \<Rightarrow> ('a, unit) prog" where
  "pipeline_1 L =
     bnd (read_csv L url names) (\<lambda>dataframe.
     bnd (call L ''DataFrame.values'' [dataframe]) (\<lambda>array.
     bnd (call L ''ndarray.__getitem__'' [array, VLit '':,0:8'']) (\<lambda>X.
     bnd (call L ''ndarray.__getitem__'' [array, VLit '':,8'']) (\<lambda>Y.
     bnd (call L ''StandardScaler'' []) (\<lambda>scaler.
     bnd (call L ''LinearDiscriminantAnalysis'' []) (\<lambda>lda.
     bnd (call L ''Pipeline'' [VList [VTuple [VStr ''standardize'', scaler],
                                      VTuple [VStr ''lda'', lda]]]) (\<lambda>model.
     bnd (call L ''KFold'' [VKw ''n_splits'' (VInt 10), VKw ''random_state'' (VInt 7)]) (\<lambda>kfold.
     bnd (call L ''cross_val_score'' [model, X, Y, VKw ''cv'' kfold]) (\<lambda>results.
     bnd (call L ''ndarray.mean'' [results]) (\<lambda>mean.
     print_out mean))))))))))"

text \<open>
  The second script differs in its estimators:
  \<^verbatim>\<open>
  features = []
  features.append(('pca', PCA(n_components=3)))
  features.append(('select_best', SelectKBest(k=6)))
  feature_union = FeatureUnion(features)
  estimators = []
  estimators.append(('feature_union', feature_union))
  estimators.append(('logistic', LogisticRegression()))
  model = Pipeline(estimators)
  \<close>
\<close>

definition pipeline_2 :: "'a lib \<Rightarrow> ('a, unit) prog" where
  "pipeline_2 L =
     bnd (read_csv L url names) (\<lambda>dataframe.
     bnd (call L ''DataFrame.values'' [dataframe]) (\<lambda>array.
     bnd (call L ''ndarray.__getitem__'' [array, VLit '':,0:8'']) (\<lambda>X.
     bnd (call L ''ndarray.__getitem__'' [array, VLit '':,8'']) (\<lambda>Y.
     bnd (call L ''PCA'' [VKw ''n_components'' (VInt 3)]) (\<lambda>pca.
     bnd (call L ''SelectKBest'' [VKw ''k'' (VInt 6)]) (\<lambda>select_best.
     bnd (call L ''FeatureUnion'' [VList [VTuple [VStr ''pca'', pca],
                                          VTuple [VStr ''select_best'', select_best]]]) (\<lambda>feature_union.
     bnd (call L ''LogisticRegression'' []) (\<lambda>logistic.
     bnd (call L ''Pipeline'' [VList [VTuple [VStr ''feature_union'', feature_union],
                                      VTuple [VStr ''logistic'', logistic]]]) (\<lambda>model.
     bnd (call L ''KFold'' [VKw ''n_splits'' (VInt 10), VKw ''random_state'' (VInt 7)]) (\<lambda>kfold.
     bnd (call L ''cross_val_score'' [model, X, Y, VKw ''cv'' kfold]) (\<lambda>results.
     bnd (call L ''ndarray.mean'' [results]) (\<lambda>mean.
     print_out mean))))))))))))"

subsection \<open>Non-linear classification in R\<close>

text \<open>
  The eight chunks of the R Markdown document have one shape:
  \<^verbatim>\<open>
  library(mda)
  data(iris)
  fit <- mda(Species~., data=iris)
  summary(fit)
  predictions <- predict(fit, iris[,1:4])
  table(predictions, iris$Species)
  \<close>
  They differ in the package, the fitting function and its further arguments, the
  further arguments of \<open>predict\<close>, and in whether \<open>$class\<close> is taken of the
  prediction. A value at top level is printed.
\<close>

definition recipe ::
  "'a lib \<Rightarrow> string \<Rightarrow> string \<Rightarrow> 'a val list \<Rightarrow> 'a val list \<Rightarrow> bool \<Rightarrow> ('a, unit) prog" where
  "recipe L package fit_function fit_arguments predict_arguments take_class =
     bnd (call L ''library'' [VLit package]) (\<lambda>_.
     bnd (call L ''data'' [VLit ''iris'']) (\<lambda>iris.
     bnd (call L fit_function ([VLit ''Species~.'', VKw ''data'' iris] @ fit_arguments)) (\<lambda>fit.
     bnd (call L ''summary'' [fit]) (\<lambda>summary_fit.
     bnd (print_out summary_fit) (\<lambda>_.
     bnd (call L ''['' [iris, VLit '',1:4'']) (\<lambda>measurements.
     bnd (call L ''predict'' ([fit, measurements] @ predict_arguments)) (\<lambda>predicted.
     bnd (if take_class then call L ''$'' [predicted, VLit ''class''] else ret predicted) (\<lambda>predictions.
     bnd (call L ''$'' [iris, VLit ''Species'']) (\<lambda>species.
     bnd (call L ''table'' [predictions, species]) (\<lambda>confusion.
     print_out confusion))))))))))"

definition mda_recipe :: "'a lib \<Rightarrow> ('a, unit) prog" where
  "mda_recipe L = recipe L ''mda'' ''mda'' [] [] False"

definition qda_recipe :: "'a lib \<Rightarrow> ('a, unit) prog" where
  "qda_recipe L = recipe L ''MASS'' ''qda'' [] [] True"

definition rda_recipe :: "'a lib \<Rightarrow> ('a, unit) prog" where
  "rda_recipe L =
     recipe L ''klaR'' ''rda'' [VKw ''gamma'' (VLit ''0.05''), VKw ''lambda'' (VLit ''0.01'')] [] True"

definition nnet_recipe :: "'a lib \<Rightarrow> ('a, unit) prog" where
  "nnet_recipe L =
     recipe L ''nnet'' ''nnet''
       [VKw ''size'' (VInt 4), VKw ''decay'' (VLit ''0.0001''), VKw ''maxit'' (VInt 500)]
       [VKw ''type'' (VStr ''class'')] False"

definition fda_recipe :: "'a lib \<Rightarrow> ('a, unit) prog" where
  "fda_recipe L = recipe L ''mda'' ''fda'' [] [] False"

definition svm_recipe :: "'a lib \<Rightarrow> ('a, unit) prog" where
  "svm_recipe L = recipe L ''kernlab'' ''ksvm'' [] [VKw ''type'' (VStr ''response'')] False"

definition knn_recipe :: "'a lib \<Rightarrow> ('a, unit) prog" where
  "knn_recipe L = recipe L ''caret'' ''knn3'' [VKw ''k'' (VInt 5)] [VKw ''type'' (VStr ''class'')] False"

definition naive_bayes_recipe :: "'a lib \<Rightarrow> ('a, unit) prog" where
  "naive_bayes_recipe L = recipe L ''e1071'' ''naiveBayes'' [] [] False"

subsection \<open>Word embedding notebook\<close>

text \<open>
  The notebook has two complete listings, the only cells of it that were executed. Its
  other code cells repeat the statements of the listings piece by piece, without the
  imports; one more cell holds a sample line of the GloVe file, not Python.
\<close>

definition docs :: "string list" where
  "docs = [''Well done!'', ''Good work'', ''Great effort'', ''nice work'', ''Excellent!'',
           ''Weak'', ''Poor effort!'', ''not good'', ''poor work'', ''Could have done better.'']"

definition labels_literal :: "'a val" where
  "labels_literal = VList [VInt 1, VInt 1, VInt 1, VInt 1, VInt 1, VInt 0, VInt 0, VInt 0, VInt 0, VInt 0]"

text \<open>
  The end of both listings:
  \<^verbatim>\<open>
  model.add(Flatten())
  model.add(Dense(1, activation='sigmoid'))
  model.compile(optimizer='adam', loss='binary_crossentropy', metrics=['acc'])
  print(model.summary())
  model.fit(padded_docs, labels, epochs=50, verbose=0)
  loss, accuracy = model.evaluate(padded_docs, labels, verbose=0)
  print('Accuracy: %f' % (accuracy*100))
  \<close>
\<close>

definition fit_and_evaluate :: "'a lib \<Rightarrow> 'a val \<Rightarrow> 'a val \<Rightarrow> 'a val \<Rightarrow> ('a, unit) prog" where
  "fit_and_evaluate L model padded_docs labels =
     bnd (call L ''Flatten'' []) (\<lambda>flatten.
     bnd (call L ''Sequential.add'' [model, flatten]) (\<lambda>model.
     bnd (call L ''Dense'' [VInt 1, VKw ''activation'' (VStr ''sigmoid'')]) (\<lambda>dense.
     bnd (call L ''Sequential.add'' [model, dense]) (\<lambda>model.
     bnd (call L ''Sequential.compile''
            [model, VKw ''optimizer'' (VStr ''adam''), VKw ''loss'' (VStr ''binary_crossentropy''),
             VKw ''metrics'' (VList [VStr ''acc''])]) (\<lambda>model.
     bnd (call L ''Sequential.summary'' [model]) (\<lambda>summary.
     bnd (print_out summary) (\<lambda>_.
     bnd (call L ''Sequential.fit''
            [model, padded_docs, labels, VKw ''epochs'' (VInt 50), VKw ''verbose'' (VInt 0)]) (\<lambda>model.
     bnd (call_evaluate L [model, padded_docs, labels, VKw ''verbose'' (VInt 0)]) (\<lambda>(loss, accuracy).
     print_out (VOp ''%'' [VStr ''Accuracy: %f'', VOp ''*'' [accuracy, VInt 100]]))))))))))"

text \<open>
  The first listing, up to the model's first layer:
  \<^verbatim>\<open>
  labels = array([1,1,1,1,1,0,0,0,0,0])
  vocab_size = 50
  encoded_docs = [one_hot(d, vocab_size) for d in docs]
  print(encoded_docs)
  max_length = 4
  padded_docs = pad_sequences(encoded_docs, maxlen=max_length, padding='post')
  print(padded_docs)
  model = Sequential()
  model.add(Embedding(vocab_size, 8, input_length=max_length))
  \<close>
\<close>

definition learned_embedding :: "'a lib \<Rightarrow> ('a, unit) prog" where
  "learned_embedding L =
     bnd (call L ''array'' [labels_literal]) (\<lambda>labels.
     bnd (comprehension (\<lambda>d. call L ''one_hot'' [VStr d, VInt 50]) docs) (\<lambda>encoded_docs.
     bnd (print_out (VList encoded_docs)) (\<lambda>_.
     bnd (call L ''pad_sequences''
            [VList encoded_docs, VKw ''maxlen'' (VInt 4), VKw ''padding'' (VStr ''post'')]) (\<lambda>padded_docs.
     bnd (print_out padded_docs) (\<lambda>_.
     bnd (call L ''Sequential'' []) (\<lambda>model.
     bnd (call L ''Embedding'' [VInt 50, VInt 8, VKw ''input_length'' (VInt 4)]) (\<lambda>e.
     bnd (call L ''Sequential.add'' [model, e]) (\<lambda>model.
     fit_and_evaluate L model padded_docs labels))))))))"

text \<open>
  The loops of the second listing as they run: \<open>asarray\<close>, \<open>zeros\<close> and the row
  assignment are calls into numpy and leave their event in the trace.
\<close>

definition call_asarray :: "'a lib \<Rightarrow> string list \<Rightarrow> ('a, 'a list) prog" where
  "call_asarray L tokens s = (asarray (float32 L) tokens, emit (Call ''asarray'') s)"

definition call_zeros :: "nat \<Rightarrow> nat \<Rightarrow> ('a::zero, 'a matrix) prog" where
  "call_zeros rows cols s = (Inr (zeros rows cols), emit (Call ''zeros'') s)"

definition call_set_row :: "'a matrix \<Rightarrow> int \<Rightarrow> 'a list \<Rightarrow> ('a, 'a matrix) prog" where
  "call_set_row m i v s = (set_row m i v, emit (Call ''ndarray.__setitem__'') s)"

fun load_loop_run :: "'a lib \<Rightarrow> string list \<Rightarrow> 'a embeddings \<Rightarrow> ('a, 'a embeddings) prog" where
  "load_loop_run L [] embeddings_index = ret embeddings_index"
| "load_loop_run L (line # rest) embeddings_index =
     (let values = py_split line in
      bnd (lift (values_0 values)) (\<lambda>word.
      bnd (call_asarray L (drop 1 values)) (\<lambda>coefs.
      load_loop_run L rest (AList.update word coefs embeddings_index))))"

fun matrix_loop_run :: "'a embeddings \<Rightarrow> word_index \<Rightarrow> 'a matrix \<Rightarrow> ('a, 'a matrix) prog" where
  "matrix_loop_run embeddings_index [] embedding_matrix = ret embedding_matrix"
| "matrix_loop_run embeddings_index ((word, i) # rest) embedding_matrix =
     (case map_of embeddings_index word of
        None \<Rightarrow> matrix_loop_run embeddings_index rest embedding_matrix
      | Some embedding_vector \<Rightarrow>
          bnd (call_set_row embedding_matrix i embedding_vector) (\<lambda>m.
          matrix_loop_run embeddings_index rest m))"

text \<open>
  The second listing, up to the model's first layer:
  \<^verbatim>\<open>
  labels = array([1,1,1,1,1,0,0,0,0,0])
  t = Tokenizer()
  t.fit_on_texts(docs)
  vocab_size = len(t.word_index) + 1
  encoded_docs = t.texts_to_sequences(docs)
  print(encoded_docs)
  max_length = 4
  padded_docs = pad_sequences(encoded_docs, maxlen=max_length, padding='post')
  print(padded_docs)
  embeddings_index = dict()
  f = open('glove.6B.100d.txt')
  for line in f: ...
  f.close()
  print('Loaded %s word vectors.' % len(embeddings_index))
  embedding_matrix = zeros((vocab_size, 100))
  for word, i in t.word_index.items(): ...
  model = Sequential()
  e = Embedding(vocab_size, 100, weights=[embedding_matrix], input_length=4, trainable=False)
  model.add(e)
  \<close>
\<close>

definition glove_path :: string where
  "glove_path = ''glove.6B.100d.txt''"

definition pretrained_embedding :: "('a::zero) lib \<Rightarrow> ('a, unit) prog" where
  "pretrained_embedding L =
     bnd (call L ''array'' [labels_literal]) (\<lambda>labels.
     bnd (call L ''Tokenizer'' []) (\<lambda>t.
     bnd (call L ''Tokenizer.fit_on_texts'' [t, VList (map VStr docs)]) (\<lambda>t.
     bnd (call L ''Tokenizer.texts_to_sequences'' [t, VList (map VStr docs)]) (\<lambda>encoded_docs.
     bnd (print_out encoded_docs) (\<lambda>_.
     bnd (call L ''pad_sequences''
            [encoded_docs, VKw ''maxlen'' (VInt 4), VKw ''padding'' (VStr ''post'')]) (\<lambda>padded_docs.
     bnd (print_out padded_docs) (\<lambda>_.
     bnd (open_read glove_path) (\<lambda>f.
     bnd (load_loop_run L f []) (\<lambda>embeddings_index.
     bnd (print_out (VOp ''%'' [VStr ''Loaded %s word vectors.'',
                                VInt (int (loaded_count embeddings_index))])) (\<lambda>_.
     bnd (call_zeros (vocab_size (word_index_of L t)) embedding_dim) (\<lambda>embedding_matrix.
     bnd (matrix_loop_run embeddings_index (word_index_of L t) embedding_matrix) (\<lambda>embedding_matrix.
     bnd (call L ''Sequential'' []) (\<lambda>model.
     bnd (call L ''Embedding''
            [VInt (int (vocab_size (word_index_of L t))), VInt 100,
             VKw ''weights'' (VList [VMatrix embedding_matrix]),
             VKw ''input_length'' (VInt 4), VKw ''trainable'' (VLit ''False'')]) (\<lambda>e.
     bnd (call L ''Sequential.add'' [model, e]) (\<lambda>model.
     fit_and_evaluate L model padded_docs labels)))))))))))))))"

subsection \<open>Truncated backpropagation notebook\<close>

text \<open>
  The notebook has one code cell, a line of notation:
  \<^verbatim>\<open>yhat(t) = f(X(t), X(t-1), X(t-2), ... X(t-n))\<close>
  Its target is a call and its argument list is not well formed, so the Python compiler
  rejects the cell: no statement of it is executed.
\<close>

definition tbptt_cell :: "('a, unit) prog" where
  "tbptt_cell = lift (Inl (RepoExpr ''yhat(t) = f(X(t), X(t-1), X(t-2), ... X(t-n))'', SyntaxError))"

subsection \<open>The repository\<close>

definition pipelines_notebook :: "'a lib \<Rightarrow> ('a, unit) prog list" where
  "pipelines_notebook L = [pipeline_1 L, pipeline_2 L]"

definition r_document :: "'a lib \<Rightarrow> ('a, unit) prog list" where
  "r_document L =
     [mda_recipe L, qda_recipe L, rda_recipe L, nnet_recipe L,
      fda_recipe L, svm_recipe L, knn_recipe L, naive_bayes_recipe L]"

definition embedding_notebook :: "('a::zero) lib \<Rightarrow> ('a, unit) prog list" where
  "embedding_notebook L = [learned_embedding L, pretrained_embedding L]"

definition tbptt_notebook :: "('a, unit) prog list" where
  "tbptt_notebook = [tbptt_cell]"

definition repository :: "('a::zero) lib \<Rightarrow> ('a, unit) prog list list" where
  "repository L = [pipelines_notebook L, r_document L, embedding_notebook L, tbptt_notebook]"


section \<open>Properties of runs\<close>


text \<open>\<open>ends_with p cs\<close>: the trace of a run that ends normally ends with \<open>cs\<close>.\<close>

definition ends_with :: "('a, 'r) prog \<Rightarrow> event list \<Rightarrow> bool" where
  "ends_with p cs = (\<forall>s. case fst (p s) of Inr x \<Rightarrow> (\<exists>t. trace (snd (p s)) = t @ cs) | Inl e \<Rightarrow> True)"




text \<open>
  \<open>depends_on R p\<close>: the outcome of a run of \<open>p\<close>, what it prints and its
  events are the same in two states that agree on standard output, on the trace and on
  the resources in \<open>R\<close>, whatever the other resources hold.
\<close>

definition agree :: "string set \<Rightarrow> 'a run_state \<Rightarrow> 'a run_state \<Rightarrow> bool" where
  "agree R s s' =
     ((\<forall>path\<in>R. resources s path = resources s' path) \<and> out s = out s' \<and> trace s = trace s')"

definition depends_on :: "string set \<Rightarrow> ('a, 'r) prog \<Rightarrow> bool" where
  "depends_on R p =
     (\<forall>s s'. agree R s s' \<longrightarrow> fst (p s) = fst (p s') \<and> agree R (snd (p s)) (snd (p s')))"












section \<open>Properties of the loading loop\<close>

lemma load_loop_step:
  "load_loop to_float (l # rest) E0 = Inr E \<Longrightarrow>
   \<exists>w v. first_token l = Some w \<and> coefficient_vector to_float l = Some v \<and>
         load_loop to_float rest (AList.update w v E0) = Inr E"
  by (auto simp: first_token_def coefficient_vector_def values_0_def Let_def
           split: list.splits sum.splits)

lemma load_loop_lookup:
  "load_loop to_float lines E0 = Inr E \<Longrightarrow> \<forall>l\<in>set lines. first_token l \<noteq> Some w \<Longrightarrow>
   map_of E w = map_of E0 w"
proof (induction lines arbitrary: E0)
  case Nil
  then show ?case by simp
next
  case (Cons l rest)
  from load_loop_step [OF Cons.prems(1)] obtain w' v where
    st: "first_token l = Some w'" "load_loop to_float rest (AList.update w' v E0) = Inr E"
    by blast
  from Cons.prems(2) st(1) have ne: "w' \<noteq> w" by auto
  from Cons.prems(2) have "\<forall>l\<in>set rest. first_token l \<noteq> Some w" by simp
  from Cons.IH [OF st(2) this] ne show ?case
    by (simp add: update_conv')
qed

lemma load_loop_last:
  "load_loop to_float (pre @ l # post) E0 = Inr E \<Longrightarrow> first_token l = Some w \<Longrightarrow>
   \<forall>l'\<in>set post. first_token l' \<noteq> Some w \<Longrightarrow>
   map_of E w = coefficient_vector to_float l"
proof (induction pre arbitrary: E0)
  case Nil
  from load_loop_step [of to_float l post E0 E] Nil.prems(1) obtain w' v where
    st: "first_token l = Some w'" "coefficient_vector to_float l = Some v"
        "load_loop to_float post (AList.update w' v E0) = Inr E"
    by auto
  from st(1) Nil.prems(2) have "w' = w" by simp
  with load_loop_lookup [OF st(3) Nil.prems(3)] st(2) show ?case
    by (simp add: update_conv')
next
  case (Cons p pre)
  from load_loop_step [of to_float p "pre @ l # post" E0 E] Cons.prems(1) obtain w' v where
    "load_loop to_float (pre @ l # post) (AList.update w' v E0) = Inr E"
    by auto
  from Cons.IH [OF this Cons.prems(2) Cons.prems(3)] show ?case .
qed

lemma load_loop_keys:
  "load_loop to_float lines E0 = Inr E \<Longrightarrow>
   Some ` fst ` set E = Some ` fst ` set E0 \<union> first_token ` set lines"
proof (induction lines arbitrary: E0)
  case Nil
  then show ?case by simp
next
  case (Cons l rest)
  from load_loop_step [OF Cons.prems] obtain w v where
    st: "first_token l = Some w" "load_loop to_float rest (AList.update w v E0) = Inr E"
    by blast
  from Cons.IH [OF st(2)] st(1) show ?case
    by (simp add: dom_update)
qed

lemma load_loop_distinct:
  "load_loop to_float lines E0 = Inr E \<Longrightarrow> distinct (map fst E0) \<Longrightarrow> distinct (map fst E)"
proof (induction lines arbitrary: E0)
  case Nil
  then show ?case by simp
next
  case (Cons l rest)
  from load_loop_step [OF Cons.prems(1)] obtain w v where
    st: "load_loop to_float rest (AList.update w v E0) = Inr E"
    by blast
  from Cons.IH [OF st] Cons.prems(2) show ?case
    by (simp add: distinct_update)
qed

lemma loaded_count_card:
  assumes "load_embeddings to_float lines = Inr E"
  shows "loaded_count E = card (first_token ` set lines)"
proof -
  from assms have l: "load_loop to_float lines [] = Inr E"
    by (simp add: load_embeddings_def)
  have d: "distinct (map fst E)"
    using load_loop_distinct [OF l] by simp
  have "Some ` fst ` set E = first_token ` set lines"
    using load_loop_keys [OF l] by simp
  then have "card (first_token ` set lines) = card (Some ` fst ` set E)" by simp
  also have "\<dots> = card (fst ` set E)"
    by (rule card_image) simp
  also have "\<dots> = card (set (map fst E))" by simp
  also have "\<dots> = length (map fst E)"
    using d by (rule distinct_card)
  finally show ?thesis by (simp add: loaded_count_def)
qed

text \<open>
  Claim C9. When the loading loop runs to its end on a file, the dictionary maps every
  first token of the file to the coefficient vector parsed from the last line that
  starts with it, and has no other key. The count printed is the number of distinct
  first tokens; it never exceeds the number of lines and is smaller for some file.
\<close>

theorem glove_last_occurrence_wins:
  assumes "load_embeddings to_float lines = Inr embeddings_index"
  shows "(\<forall>pre l post w.
            lines = pre @ l # post \<and> first_token l = Some w \<and>
            (\<forall>l'\<in>set post. first_token l' \<noteq> Some w) \<longrightarrow>
            map_of embeddings_index w = coefficient_vector to_float l)
       \<and> (\<forall>w. (\<forall>l\<in>set lines. first_token l \<noteq> Some w) \<longrightarrow> map_of embeddings_index w = None)
       \<and> distinct (map fst embeddings_index)
       \<and> loaded_count embeddings_index = card (first_token ` set lines)
       \<and> loaded_count embeddings_index \<le> length lines
       \<and> (\<exists>file index. load_embeddings to_float file = Inr index \<and> loaded_count index < length file)"
proof -
  from assms have l: "load_loop to_float lines [] = Inr embeddings_index"
    by (simp add: load_embeddings_def)
  have 1: "\<forall>pre l post w.
            lines = pre @ l # post \<and> first_token l = Some w \<and>
            (\<forall>l'\<in>set post. first_token l' \<noteq> Some w) \<longrightarrow>
            map_of embeddings_index w = coefficient_vector to_float l"
    using load_loop_last l by blast
  have 2: "\<forall>w. (\<forall>l\<in>set lines. first_token l \<noteq> Some w) \<longrightarrow> map_of embeddings_index w = None"
    using load_loop_lookup [OF l] by simp
  have 3: "distinct (map fst embeddings_index)"
    using load_loop_distinct [OF l] by simp
  have 4: "loaded_count embeddings_index = card (first_token ` set lines)"
    using loaded_count_card [OF assms] .
  have "card (first_token ` set lines) \<le> card (set lines)"
    by (rule card_image_le) simp
  also have "\<dots> \<le> length lines" by (rule card_length)
  finally have 5: "loaded_count embeddings_index \<le> length lines"
    using 4 by simp
  have "load_embeddings to_float [''a'', ''a''] = Inr [(''a'', [])]"
    by (simp add: load_embeddings_def py_split_def isspace_def values_0_def)
  then have 6: "\<exists>file index. load_embeddings to_float file = Inr index \<and> loaded_count index < length file"
    by (intro exI [of _ "[''a'', ''a'']"] exI [of _ "[(''a'', [])]"]) (simp add: loaded_count_def)
  from 1 2 3 4 5 6 show ?thesis by blast
qed

theorem glove_last_occurrence_wins_witness:
  "load_embeddings sample_float [''the 1 2'', ''a 2'', ''the 2 5''] = Inr [(''the'', [2, 5]), (''a'', [2])] \<and>
   map_of [(''the'', [2, 5]), (''a'', [2])] ''the'' = coefficient_vector sample_float ''the 2 5'' \<and>
   coefficient_vector sample_float ''the 2 5'' = Some [2, 5] \<and>
   loaded_count [(''the'', [2, 5 :: int]), (''a'', [2])] = card (first_token ` set [''the 1 2'', ''a 2'', ''the 2 5'']) \<and>
   loaded_count [(''the'', [2, 5 :: int]), (''a'', [2])] = 2 \<and>
   length [''the 1 2'', ''a 2'', ''the 2 5''] = 3"
proof -
  have a: "load_embeddings sample_float [''the 1 2'', ''a 2'', ''the 2 5''] = Inr [(''the'', [2, 5]), (''a'', [2])]"
    by (simp add: load_embeddings_def py_split_def isspace_def values_0_def sample_float_def)
  have b: "first_token ''the 2 5'' = Some ''the''"
    by (simp add: first_token_def py_split_def isspace_def)
  have c: "coefficient_vector sample_float ''the 2 5'' = Some [2, 5]"
    by (simp add: coefficient_vector_def py_split_def isspace_def sample_float_def)
  note t = glove_last_occurrence_wins [OF a]
  from t have "[''the 1 2'', ''a 2'', ''the 2 5''] = [''the 1 2'', ''a 2''] @ ''the 2 5'' # [] \<and>
      first_token ''the 2 5'' = Some ''the'' \<and> (\<forall>l'\<in>set []. first_token l' \<noteq> Some ''the'') \<longrightarrow>
      map_of [(''the'', [2, 5]), (''a'', [2])] ''the'' = coefficient_vector sample_float ''the 2 5''"
    by blast
  with b have d: "map_of [(''the'', [2, 5]), (''a'', [2])] ''the'' = coefficient_vector sample_float ''the 2 5''"
    by simp
  from t have e: "loaded_count [(''the'', [2, 5 :: int]), (''a'', [2])] = card (first_token ` set [''the 1 2'', ''a 2'', ''the 2 5''])"
    by blast
  from a c d e show ?thesis
    by (simp add: loaded_count_def)
qed

lemma split_from_blank: "\<forall>c\<in>set line. isspace c \<Longrightarrow> split_from [] line = []"
  by (induction line) simp_all

lemma load_loop_append:
  "load_loop to_float (pre @ rest) E0 =
     (case load_loop to_float pre E0 of Inl e \<Rightarrow> Inl e | Inr E1 \<Rightarrow> load_loop to_float rest E1)"
  by (induction pre arbitrary: E0) (simp_all add: Let_def split: sum.splits)

text \<open>
  Claim C8. A line without a token (empty, or whitespace only) is not skipped: when the
  lines before it load, the loop stops at that line with the IndexError of
  \<open>values[0]\<close>, whatever follows it in the file.
\<close>

theorem glove_blank_line_raises:
  assumes "load_embeddings to_float pre = Inr embeddings_index"
    and "\<forall>c\<in>set line. isspace c"
  shows "load_embeddings to_float (pre @ line # rest) = Inl (RepoExpr ''values[0]'', IndexError)"
proof -
  from assms(2) have "py_split line = []"
    by (simp add: py_split_def split_from_blank)
  then have "load_loop to_float (line # rest) embeddings_index = Inl (RepoExpr ''values[0]'', IndexError)"
    by (simp add: values_0_def)
  with assms(1) show ?thesis
    by (simp add: load_embeddings_def load_loop_append)
qed

theorem glove_blank_line_raises_witness:
  "load_embeddings sample_float [''the 1 2''] = Inr [(''the'', [1, 2])] \<and>
   list_all isspace [CHR 0x0A] \<and>
   load_embeddings sample_float [''the 1 2'', [CHR 0x0A], ''a 2''] = Inl (RepoExpr ''values[0]'', IndexError)"
proof -
  have a: "load_embeddings sample_float [''the 1 2''] = Inr [(''the'', [1, 2])]"
    by (simp add: load_embeddings_def py_split_def isspace_def values_0_def sample_float_def)
  have b: "\<forall>c\<in>set [CHR 0x0A]. isspace c"
    by (simp add: isspace_def)
  from glove_blank_line_raises [OF a b, of "[''a 2'']"] a b show ?thesis
    by (simp add: list_all_iff)
qed

section \<open>Properties of the weight matrix\<close>


lemma set_row_in_range:
  "0 \<le> i \<Longrightarrow> i < int (length m) \<Longrightarrow>
   set_row m i v = (case broadcast_row (length (m ! nat i)) v of
                      Inl e \<Rightarrow> Inl e | Inr r \<Rightarrow> Inr (m[nat i := r]))"
  by (simp add: set_row_def Let_def)

lemma broadcast_row_Inr:
  assumes "broadcast_row embedding_dim v = Inr r"
  shows "r = stored_row v" and "length r = embedding_dim"
  using assms by (auto simp: broadcast_row_def stored_row_def split: if_splits)

lemma set_row_Inr:
  assumes "set_row m i v = Inr m'" "0 \<le> i" "i < int (length m)" "rows_ok m"
  shows "m' = m[nat i := stored_row v]" and "rows_ok m'" and "length m' = length m"
proof -
  from assms(2,3) have n: "nat i < length m" by linarith
  with assms(4) have len: "length (m ! nat i) = embedding_dim"
    by (simp add: rows_ok_def)
  from assms(1) set_row_in_range [OF assms(2,3), of v] len
  obtain r where r: "broadcast_row embedding_dim v = Inr r" "m' = m[nat i := r]"
    by (auto split: sum.splits)
  note rr = broadcast_row_Inr [OF r(1)]
  have "rows_ok (m[nat i := r])"
    using assms(4) rr(2) by (auto simp: rows_ok_def dest!: set_update_subset_insert [THEN subsetD])
  with r(2) rr(1) show "m' = m[nat i := stored_row v]" and "rows_ok m'" and "length m' = length m"
    by simp_all
qed

lemma matrix_loop_untouched:
  assumes "matrix_loop E wi m0 = Inr m"
    and "\<forall>(w, i)\<in>set wi. 0 \<le> i \<and> i < int (length m0)"
    and "rows_ok m0"
    and "\<forall>(w, i)\<in>set wi. nat i = j \<longrightarrow> map_of E w = None"
  shows "length m = length m0 \<and> rows_ok m \<and> m ! j = m0 ! j"
  using assms
proof (induction wi arbitrary: m0)
  case Nil
  then show ?case by simp
next
  case (Cons p rest)
  obtain w i where p: "p = (w, i)" by (cases p)
  show ?case
  proof (cases "map_of E w")
    case None
    with Cons.prems(1) p have "matrix_loop E rest m0 = Inr m" by simp
    from Cons.IH [OF this] Cons.prems(2,3,4) show ?thesis by simp
  next
    case (Some v)
    with Cons.prems(1) p obtain m1 where
      m1: "set_row m0 i v = Inr m1" "matrix_loop E rest m1 = Inr m"
      by (auto split: sum.splits)
    from Cons.prems(2) p have i: "0 \<le> i" "i < int (length m0)" by simp_all
    note s = set_row_Inr [OF m1(1) i Cons.prems(3)]
    from Cons.prems(4) p Some have ne: "nat i \<noteq> j" by auto
    have "length m = length m1 \<and> rows_ok m \<and> m ! j = m1 ! j"
    proof (rule Cons.IH [OF m1(2) _ s(2)])
      show "\<forall>(w, i)\<in>set rest. 0 \<le> i \<and> i < int (length m1)"
        using Cons.prems(2) s(3) by simp
      show "\<forall>(w, i)\<in>set rest. nat i = j \<longrightarrow> map_of E w = None"
        using Cons.prems(4) by simp
    qed
    with s ne show ?thesis by simp
  qed
qed

lemma matrix_loop_written:
  assumes "matrix_loop E wi m0 = Inr m"
    and "\<forall>(w, i)\<in>set wi. 0 \<le> i \<and> i < int (length m0)"
    and "rows_ok m0"
    and "distinct (map snd wi)"
    and "(w, i) \<in> set wi" and "map_of E w = Some v"
  shows "m ! nat i = stored_row v"
  using assms
proof (induction wi arbitrary: m0)
  case Nil
  then show ?case by simp
next
  case (Cons p rest)
  obtain w' i' where p: "p = (w', i')" by (cases p)
  from Cons.prems(2) p have i': "0 \<le> i'" "i' < int (length m0)" by simp_all
  show ?case
  proof (cases "(w, i) = p")
    case True
    with p have eq: "w' = w" "i' = i" by simp_all
    with Cons.prems(1,6) p obtain m1 where
      m1: "set_row m0 i v = Inr m1" "matrix_loop E rest m1 = Inr m"
      by (auto split: sum.splits)
    from i' eq have i: "0 \<le> i" "i < int (length m0)" by simp_all
    note s = set_row_Inr [OF m1(1) i Cons.prems(3)]
    have notin: "\<forall>(w'', i'')\<in>set rest. nat i'' = nat i \<longrightarrow> map_of E w'' = None"
    proof (clarify)
      fix w'' i'' assume a: "(w'', i'') \<in> set rest" "nat i'' = nat i"
      from Cons.prems(2) a(1) have "0 \<le> i''" by auto
      with a(2) i' eq have "i'' = i" by simp
      with a(1) have "i \<in> snd ` set rest" by force
      with Cons.prems(4) p eq show "map_of E w'' = None" by simp
    qed
    have "length m = length m1 \<and> rows_ok m \<and> m ! nat i = m1 ! nat i"
    proof (rule matrix_loop_untouched [OF m1(2) _ s(2) notin])
      show "\<forall>(w, i)\<in>set rest. 0 \<le> i \<and> i < int (length m1)"
        using Cons.prems(2) s(3) by simp
    qed
    moreover from i' eq have "nat i < length m0" by linarith
    ultimately show ?thesis using s(1) by simp
  next
    case False
    with Cons.prems(5) have mem: "(w, i) \<in> set rest" by simp
    from Cons.prems(4) have d: "distinct (map snd rest)" by simp
    show ?thesis
    proof (cases "map_of E w'")
      case None
      with Cons.prems(1) p have l: "matrix_loop E rest m0 = Inr m" by simp
      show ?thesis
        by (rule Cons.IH [OF l _ Cons.prems(3) d mem Cons.prems(6)])
           (use Cons.prems(2) in simp)
    next
      case (Some v')
      with Cons.prems(1) p obtain m1 where
        m1: "set_row m0 i' v' = Inr m1" "matrix_loop E rest m1 = Inr m"
        by (auto split: sum.splits)
      note s = set_row_Inr [OF m1(1) i' Cons.prems(3)]
      show ?thesis
        by (rule Cons.IH [OF m1(2) _ s(2) d mem Cons.prems(6)])
           (use Cons.prems(2) s(3) in simp)
    qed
  qed
qed

lemma rows_ok_zeros: "rows_ok (zeros rows embedding_dim)"
  by (simp add: rows_ok_def zeros_def)

lemma set_row_Inl:
  assumes "set_row m i v = Inl e" "0 \<le> i" "i < int (length m)"
  shows "e = (InCall ''ndarray.__setitem__'', ValueError)"
  using assms
  by (auto simp: set_row_in_range broadcast_row_def split: sum.splits if_splits)

lemma set_row_succeeds:
  assumes "0 \<le> i" "i < int (length m)" "rows_ok m"
  shows "(\<exists>m'. set_row m i v = Inr m') \<longleftrightarrow> (length v = embedding_dim \<or> length v = 1)"
proof -
  from assms(1,2) have "nat i < length m" by linarith
  with assms(3) have "length (m ! nat i) = embedding_dim"
    by (simp add: rows_ok_def)
  then show ?thesis
    by (simp add: set_row_in_range [OF assms(1,2)] broadcast_row_def)
qed

lemma matrix_loop_Inl:
  assumes "matrix_loop E wi m0 = Inl e"
    and "\<forall>(w, i)\<in>set wi. 0 \<le> i \<and> i < int (length m0)"
    and "rows_ok m0"
  shows "e = (InCall ''ndarray.__setitem__'', ValueError)"
  using assms
proof (induction wi arbitrary: m0)
  case Nil
  then show ?case by simp
next
  case (Cons p rest)
  obtain w i where p: "p = (w, i)" by (cases p)
  from Cons.prems(2) p have i: "0 \<le> i" "i < int (length m0)" by simp_all
  show ?case
  proof (cases "map_of E w")
    case None
    with Cons.prems(1) p have "matrix_loop E rest m0 = Inl e" by simp
    from Cons.IH [OF this _ Cons.prems(3)] Cons.prems(2) show ?thesis by simp
  next
    case (Some v)
    show ?thesis
    proof (cases "set_row m0 i v")
      case (Inl e')
      with Cons.prems(1) p Some have "e' = e" by simp
      with set_row_Inl [OF Inl i] show ?thesis by simp
    next
      case (Inr m1)
      with Cons.prems(1) p Some have l: "matrix_loop E rest m1 = Inl e" by simp
      note s = set_row_Inr [OF Inr i Cons.prems(3)]
      show ?thesis
        by (rule Cons.IH [OF l _ s(2)]) (use Cons.prems(2) s(3) in simp)
    qed
  qed
qed

lemma matrix_loop_succeeds:
  assumes "\<forall>(w, i)\<in>set wi. 0 \<le> i \<and> i < int (length m0)"
    and "rows_ok m0"
  shows "(\<exists>m. matrix_loop E wi m0 = Inr m) \<longleftrightarrow>
         (\<forall>(w, i)\<in>set wi. \<forall>v. map_of E w = Some v \<longrightarrow> length v = embedding_dim \<or> length v = 1)"
  using assms
proof (induction wi arbitrary: m0)
  case Nil
  then show ?case by simp
next
  case (Cons p rest)
  obtain w i where p: "p = (w, i)" by (cases p)
  from Cons.prems(1) p have i: "0 \<le> i" "i < int (length m0)" by simp_all
  from Cons.prems(1) have r: "\<forall>(w, i)\<in>set rest. 0 \<le> i \<and> i < int (length m0)" by simp
  show ?case
  proof (cases "map_of E w")
    case None
    with Cons.IH [OF r Cons.prems(2)] p show ?thesis by simp
  next
    case (Some v)
    show ?thesis
    proof (cases "set_row m0 i v")
      case (Inl e)
      with set_row_succeeds [OF i Cons.prems(2), of v]
      have "\<not> (length v = embedding_dim \<or> length v = 1)" by simp
      with Inl Some p show ?thesis by auto
    next
      case (Inr m1)
      with set_row_succeeds [OF i Cons.prems(2), of v]
      have len: "length v = embedding_dim \<or> length v = 1" by auto
      note s = set_row_Inr [OF Inr i Cons.prems(2)]
      from r s(3) have r1: "\<forall>(w, i)\<in>set rest. 0 \<le> i \<and> i < int (length m1)" by simp
      from Cons.IH [OF r1 s(2)] Inr Some p len show ?thesis by simp
    qed
  qed
qed

lemma indices_in_bounds:
  assumes "indices_1_to_len wi"
  shows "\<forall>(w, i)\<in>set wi. 0 \<le> i \<and> i < int (vocab_size wi)"
  using assms by (auto simp: indices_1_to_len_def vocab_size_def list_all_iff)

lemma zeros_nth: "j < rows \<Longrightarrow> zeros rows cols ! j = replicate cols 0"
  by (simp add: zeros_def)

lemma build_matrix_facts:
  assumes "indices_1_to_len word_index"
  shows "list_all (\<lambda>(w, i). 0 \<le> i \<and> i < int (vocab_size word_index)) word_index"
    and "build_matrix embeddings_index word_index \<noteq> Inl (InCall ''ndarray.__setitem__'', IndexError)"
    and "(\<exists>m. build_matrix embeddings_index word_index = Inr m) \<longleftrightarrow>
         (\<forall>(w, i)\<in>set word_index. \<forall>v. map_of embeddings_index w = Some v \<longrightarrow>
             length v = embedding_dim \<or> length v = 1)"
    and "build_matrix embeddings_index word_index = Inr m \<longrightarrow>
         length m = vocab_size word_index \<and> m ! 0 = replicate embedding_dim 0 \<and>
         (\<forall>(w, i)\<in>set word_index.
            m ! nat i = (case map_of embeddings_index w of
                           None \<Rightarrow> replicate embedding_dim 0
                         | Some v \<Rightarrow> if length v = embedding_dim then v
                                     else replicate embedding_dim (hd v)))"
proof -
  let ?m0 = "zeros (vocab_size word_index) embedding_dim :: 'a matrix"
  have len0: "length ?m0 = vocab_size word_index" by (simp add: zeros_def)
  note b = indices_in_bounds [OF assms]
  from b have b0: "\<forall>(w, i)\<in>set word_index. 0 \<le> i \<and> i < int (length ?m0)"
    by (simp add: len0)
  from b show "list_all (\<lambda>(w, i). 0 \<le> i \<and> i < int (vocab_size word_index)) word_index"
    by (simp add: list_all_iff)
  show "build_matrix embeddings_index word_index \<noteq> Inl (InCall ''ndarray.__setitem__'', IndexError)"
  proof
    assume "build_matrix embeddings_index word_index = Inl (InCall ''ndarray.__setitem__'', IndexError)"
    then have "matrix_loop embeddings_index word_index ?m0 = Inl (InCall ''ndarray.__setitem__'', IndexError)"
      by (simp add: build_matrix_def)
    from matrix_loop_Inl [OF this b0 rows_ok_zeros] show False by simp
  qed
  show "(\<exists>m. build_matrix embeddings_index word_index = Inr m) \<longleftrightarrow>
         (\<forall>(w, i)\<in>set word_index. \<forall>v. map_of embeddings_index w = Some v \<longrightarrow>
             length v = embedding_dim \<or> length v = 1)"
    unfolding build_matrix_def by (rule matrix_loop_succeeds [OF b0 rows_ok_zeros])
  show "build_matrix embeddings_index word_index = Inr m \<longrightarrow>
         length m = vocab_size word_index \<and> m ! 0 = replicate embedding_dim 0 \<and>
         (\<forall>(w, i)\<in>set word_index.
            m ! nat i = (case map_of embeddings_index w of
                           None \<Rightarrow> replicate embedding_dim 0
                         | Some v \<Rightarrow> if length v = embedding_dim then v
                                     else replicate embedding_dim (hd v)))"
  proof
    assume "build_matrix embeddings_index word_index = Inr m"
    then have l: "matrix_loop embeddings_index word_index ?m0 = Inr m"
      by (simp add: build_matrix_def)
    from assms have d: "distinct (map snd word_index)"
      by (simp add: indices_1_to_len_def)
    have no0: "\<forall>(w, i)\<in>set word_index. nat i = 0 \<longrightarrow> map_of embeddings_index w = None"
      using assms by (auto simp: indices_1_to_len_def list_all_iff)
    from matrix_loop_untouched [OF l b0 rows_ok_zeros no0]
    have u: "length m = length ?m0" "m ! 0 = ?m0 ! 0" by simp_all
    have rows: "\<forall>(w, i)\<in>set word_index.
            m ! nat i = (case map_of embeddings_index w of
                           None \<Rightarrow> replicate embedding_dim 0
                         | Some v \<Rightarrow> if length v = embedding_dim then v
                                     else replicate embedding_dim (hd v))"
    proof (clarify)
      fix w i assume mem: "(w, i) \<in> set word_index"
      from b mem have i: "0 \<le> i" "i < int (vocab_size word_index)" by auto
      show "m ! nat i = (case map_of embeddings_index w of
                           None \<Rightarrow> replicate embedding_dim 0
                         | Some v \<Rightarrow> if length v = embedding_dim then v
                                     else replicate embedding_dim (hd v))"
      proof (cases "map_of embeddings_index w")
        case None
        have "\<forall>(w', i')\<in>set word_index. nat i' = nat i \<longrightarrow> map_of embeddings_index w' = None"
        proof (clarify)
          fix w' i' assume a: "(w', i') \<in> set word_index" "nat i' = nat i"
          from b a(1) have "0 \<le> i'" by auto
          with a(2) i(1) have "i' = i" by simp
          with a(1) mem d have "w' = w"
            by (metis distinct_map inj_onD snd_conv fst_conv)
          with None show "map_of embeddings_index w' = None" by simp
        qed
        from matrix_loop_untouched [OF l b0 rows_ok_zeros this]
        have "m ! nat i = ?m0 ! nat i" by simp
        moreover from i have "nat i < vocab_size word_index" by linarith
        ultimately show ?thesis using None by (simp add: zeros_nth)
      next
        case (Some v)
        from matrix_loop_written [OF l b0 rows_ok_zeros d mem Some] Some
        show ?thesis by (simp add: stored_row_def)
      qed
    qed
    from u rows show "length m = vocab_size word_index \<and> m ! 0 = replicate embedding_dim 0 \<and>
         (\<forall>(w, i)\<in>set word_index.
            m ! nat i = (case map_of embeddings_index w of
                           None \<Rightarrow> replicate embedding_dim 0
                         | Some v \<Rightarrow> if length v = embedding_dim then v
                                     else replicate embedding_dim (hd v)))"
      by (simp add: zeros_def vocab_size_def)
  qed
qed

text \<open>
  Claim C5, as amended. When the tokenizer's dictionary gives distinct indices in
  \<open>1..len(word_index)\<close> and the matrix has \<open>len(word_index) + 1\<close> rows, every
  index written is a row of the matrix and the construction never raises IndexError. It
  ends normally exactly when every vector found has 100 components or one component.
  Then the matrix has \<open>vocab_size\<close> rows, row 0 is zero, and the row of a word's
  index is zero when the word has no vector, the word's vector when that has 100
  components, and 100 copies of its component when it has one (numpy's broadcasting).
\<close>

theorem embedding_matrix_rows:
  assumes "indices_1_to_len word_index"
  shows "list_all (\<lambda>(w, i). 0 \<le> i \<and> i < int (vocab_size word_index)) word_index
       \<and> build_matrix embeddings_index word_index \<noteq> Inl (InCall ''ndarray.__setitem__'', IndexError)
       \<and> ((\<exists>m. build_matrix embeddings_index word_index = Inr m) \<longleftrightarrow>
            (\<forall>(w, i)\<in>set word_index. \<forall>v. map_of embeddings_index w = Some v \<longrightarrow>
               length v = embedding_dim \<or> length v = 1))
       \<and> (build_matrix embeddings_index word_index = Inr m \<longrightarrow>
            length m = vocab_size word_index \<and> m ! 0 = replicate embedding_dim 0 \<and>
            (\<forall>(w, i)\<in>set word_index.
               m ! nat i = (case map_of embeddings_index w of
                              None \<Rightarrow> replicate embedding_dim 0
                            | Some v \<Rightarrow> if length v = embedding_dim then v
                                        else replicate embedding_dim (hd v))))"
  using build_matrix_facts [OF assms] by blast

lemma docs_word_index_ok: "indices_1_to_len docs_word_index"
  by (simp add: indices_1_to_len_def docs_word_index_def)

lemma replicate_13: "replicate 13 x = [x, x, x, x, x, x, x, x, x, x, x, x, x]"
  by (simp add: numeral_eq_Suc)


lemma build_matrix_sample:
  "build_matrix [(''work'', replicate 100 (1::int)), (''the'', replicate 100 2)] docs_word_index =
     Inr (replicate 100 0 # replicate 100 1 # replicate 13 (replicate 100 0))"
  by (simp add: build_matrix_def docs_word_index_def vocab_size_def zeros_def embedding_dim_def
        set_row_def broadcast_row_def Let_def replicate_13)

theorem embedding_matrix_rows_witness:
  "indices_1_to_len docs_word_index \<and>
   build_matrix [(''work'', replicate 100 (1::int)), (''the'', replicate 100 2)] docs_word_index =
     Inr (replicate 100 0 # replicate 100 1 # replicate 13 (replicate 100 0)) \<and>
   length (replicate 100 (0::int) # replicate 100 1 # replicate 13 (replicate 100 0)) = vocab_size docs_word_index \<and>
   (replicate 100 (0::int) # replicate 100 1 # replicate 13 (replicate 100 0)) ! 0 = replicate embedding_dim 0 \<and>
   (replicate 100 (0::int) # replicate 100 1 # replicate 13 (replicate 100 0)) ! 1 = replicate 100 1"
  using embedding_matrix_rows [where embeddings_index = "[(''work'', replicate 100 (1::int)), (''the'', replicate 100 2)]"
      and m = "replicate 100 0 # replicate 100 1 # replicate 13 (replicate 100 0)", OF docs_word_index_ok]
    docs_word_index_ok build_matrix_sample
  by simp

text \<open>
  Claim C5 as stated fails for a file line such as \<open>work 5\<close>: the vector of
  \<open>work\<close> has one component, the assignment succeeds, and row 1 is not that vector.
\<close>

theorem one_component_vector_counterexample:
  "indices_1_to_len [(''work'', 1)] \<and>
   map_of [(''work'', [5::int])] ''work'' = Some [5] \<and>
   build_matrix [(''work'', [5::int])] [(''work'', 1)] = Inr [replicate 100 0, replicate 100 5] \<and>
   [replicate 100 0, replicate 100 (5::int)] ! 1 \<noteq> [5]"
proof -
  have "length (replicate 100 (5::int)) \<noteq> length [5::int]" by simp
  then have "replicate 100 (5::int) \<noteq> [5]" by metis
  then show ?thesis
    by (simp add: indices_1_to_len_def build_matrix_def vocab_size_def zeros_def embedding_dim_def
        set_row_def broadcast_row_def Let_def numeral_2_eq_2)
qed





section \<open>Rules for runs\<close>

subsection \<open>Fixed sequences of events\<close>























subsection \<open>The loops as they run\<close>


lemma matrix_loop_run_result:
  "fst (matrix_loop_run E wi m s) = matrix_loop E wi m"
  by (induction wi arbitrary: m s)
     (auto simp: ret_def bnd_def call_set_row_def split: sum.splits prod.splits option.splits)



subsection \<open>The frame of a run\<close>

























subsection \<open>Where exceptions come from\<close>






























subsection \<open>Complete runs\<close>











subsection \<open>What a run depends on\<close>

lemma agree_emit: "agree R s s' \<Longrightarrow> agree R (emit ev s) (emit ev s')"
  by (simp add: agree_def emit_def)

lemma depends_ret: "depends_on R (ret x)"
  by (simp add: depends_on_def ret_def)

lemma depends_lift: "depends_on R (lift r)"
  by (simp add: depends_on_def lift_def)

lemma depends_call: "depends_on R (call L f args)"
  by (auto simp: depends_on_def call_def agree_emit split: sum.splits)

lemma depends_call_evaluate: "depends_on R (call_evaluate L args)"
  by (auto simp: depends_on_def call_evaluate_def agree_emit split: sum.splits)

lemma depends_print_out: "depends_on R (print_out v)"
  by (simp add: depends_on_def print_out_def agree_def emit_def)

lemma depends_open_read: "path \<in> R \<Longrightarrow> depends_on R (open_read path)"
  by (auto simp: depends_on_def open_read_def agree_def emit_def split: option.splits)

lemma depends_read_csv: "u \<in> R \<Longrightarrow> depends_on R (read_csv L u ns)"
  by (auto simp: depends_on_def read_csv_def agree_def emit_def split: option.splits sum.splits)

lemma depends_call_asarray: "depends_on R (call_asarray L tokens)"
  by (simp add: depends_on_def call_asarray_def agree_emit)

lemma depends_call_zeros: "depends_on R (call_zeros rows cols)"
  by (simp add: depends_on_def call_zeros_def agree_emit)

lemma depends_call_set_row: "depends_on R (call_set_row m i v)"
  by (simp add: depends_on_def call_set_row_def agree_emit)

lemma depends_bnd:
  assumes p: "depends_on R p" and q: "\<And>x. depends_on R (q x)"
  shows "depends_on R (bnd p q)"
  unfolding depends_on_def
proof (intro allI impI)
  fix s s' :: "'a run_state"
  assume a: "agree R s s'"
  obtain r s1 where ps: "p s = (r, s1)" by (cases "p s")
  obtain r' s1' where ps': "p s' = (r', s1')" by (cases "p s'")
  from p a have "fst (p s) = fst (p s') \<and> agree R (snd (p s)) (snd (p s'))"
    unfolding depends_on_def by blast
  with ps ps' have r: "r' = r" and a1: "agree R s1 s1'"
    by simp_all
  show "fst (bnd p q s) = fst (bnd p q s') \<and> agree R (snd (bnd p q s)) (snd (bnd p q s'))"
  proof (cases r)
    case (Inl e)
    with ps ps' r a1 show ?thesis by (simp add: bnd_def)
  next
    case (Inr x)
    from q [of x] a1 have "fst (q x s1) = fst (q x s1') \<and> agree R (snd (q x s1)) (snd (q x s1'))"
      by (simp add: depends_on_def)
    with Inr ps ps' r show ?thesis by (simp add: bnd_def)
  qed
qed

lemma depends_case_prod: "(\<And>a b. depends_on R (q a b)) \<Longrightarrow> depends_on R (case_prod q x)"
  by (cases x) simp

lemma depends_if: "depends_on R p \<Longrightarrow> depends_on R q \<Longrightarrow> depends_on R (if b then p else q)"
  by simp

lemma depends_comprehension: "(\<And>d. depends_on R (f d)) \<Longrightarrow> depends_on R (comprehension f ds)"
  by (induction ds) (auto intro!: depends_ret depends_bnd)

lemma depends_load_loop_run: "depends_on R (load_loop_run L ls E)"
  by (induction ls arbitrary: E)
     (auto simp: Let_def intro!: depends_ret depends_bnd depends_lift depends_call_asarray)

lemma depends_matrix_loop_run: "depends_on R (matrix_loop_run E wi m)"
  by (induction wi arbitrary: m)
     (auto intro!: depends_ret depends_bnd depends_call_set_row split: option.splits)

lemmas depends_intros =
  depends_bnd depends_ret depends_lift depends_call depends_call_evaluate depends_print_out
  depends_open_read depends_read_csv depends_call_zeros depends_case_prod depends_if
  depends_comprehension depends_load_loop_run depends_matrix_loop_run

lemma depends_fit_and_evaluate: "depends_on R (fit_and_evaluate L model padded_docs labels)"
  unfolding fit_and_evaluate_def by (intro depends_intros)

lemma depends_pipeline_1: "url \<in> R \<Longrightarrow> depends_on R (pipeline_1 L)"
  unfolding pipeline_1_def by (intro depends_intros)

lemma depends_pipeline_2: "url \<in> R \<Longrightarrow> depends_on R (pipeline_2 L)"
  unfolding pipeline_2_def by (intro depends_intros)

lemma depends_recipe:
  "depends_on R (recipe L package fit_function fit_arguments predict_arguments take_class)"
  unfolding recipe_def by (intro depends_intros)

lemma depends_learned_embedding: "depends_on R (learned_embedding L)"
  unfolding learned_embedding_def by (intro depends_intros depends_fit_and_evaluate)

lemma depends_pretrained_embedding: "glove_path \<in> R \<Longrightarrow> depends_on R (pretrained_embedding L)"
  unfolding pretrained_embedding_def by (intro depends_intros depends_fit_and_evaluate)

lemma depends_tbptt_cell: "depends_on R tbptt_cell"
  unfolding tbptt_cell_def by (rule depends_lift)

subsection \<open>Concrete runs of the second listing\<close>










subsection \<open>Helpers on runs\<close>







subsection \<open>The scripts, one by one\<close>

lemmas recipe_defs =
  mda_recipe_def qda_recipe_def rda_recipe_def nnet_recipe_def fda_recipe_def
  svm_recipe_def knn_recipe_def naive_bayes_recipe_def

lemma in_pipelines:
  "p \<in> set (pipelines_notebook L) \<Longrightarrow> p = pipeline_1 L \<or> p = pipeline_2 L"
  by (auto simp: pipelines_notebook_def)

lemma in_r_document:
  "p \<in> set (r_document L) \<Longrightarrow>
   \<exists>package fit_function fit_arguments predict_arguments take_class.
     p = recipe L package fit_function fit_arguments predict_arguments take_class"
  unfolding r_document_def recipe_defs by (simp only: set_simps insert_iff empty_iff) blast

lemma in_embedding_notebook:
  "p \<in> set (embedding_notebook L) \<Longrightarrow> p = learned_embedding L \<or> p = pretrained_embedding L"
  by (auto simp: embedding_notebook_def)

lemma in_repository:
  "doc \<in> set (repository L) \<Longrightarrow> p \<in> set doc \<Longrightarrow>
   p \<in> set (pipelines_notebook L) \<or> p \<in> set (r_document L) \<or>
   p \<in> set (embedding_notebook L) \<or> p = tbptt_cell"
  by (auto simp: repository_def tbptt_notebook_def)


section \<open>The scripts as sequences of library calls\<close>




section \<open>What the scripts print\<close>















section \<open>Exceptions of the scripts\<close>






section \<open>Effects and independence of the scripts\<close>



lemma depends_repository:
  assumes "doc \<in> set (repository L)" and "p \<in> set doc"
  shows "depends_on {url, glove_path} p"
  using in_repository [OF assms]
  by (auto dest!: in_pipelines in_r_document in_embedding_notebook
           intro: depends_pipeline_1 depends_pipeline_2 depends_recipe depends_learned_embedding
                  depends_pretrained_embedding depends_tbptt_cell)



end
